theory Spec2Isabelle
  imports Main "HOL-Library.Sublist"
begin

section \<open>Errors\<close>

text \<open>
  Every exception the modelled code can raise is a value of \<open>error\<close>; a function that can
  raise returns \<open>error + 'a\<close> with \<open>Inl\<close> for the exception.
\<close>

datatype error =
    ValueError
  | StopIteration
  | IndexError
  | RuntimeError
  | AttributeError
  | TypeError
  | NotImplementedError string
  | ConfigMissingException string
  | DownstreamError string

section \<open>Tensors\<close>

text \<open>
  A tensor of the numeric library is its shape, its elements in row-major order and the
  device it lives on. It is well formed when it has as many elements as its shape says.
\<close>

datatype device = CPU | CUDA nat

record 'a tensor =
  tshape :: "nat list"
  tdata :: "'a list"
  tdevice :: device

definition wf_tensor :: "'a tensor \<Rightarrow> bool" where
  "wf_tensor x = (length (tdata x) = prod_list (tshape x))"

text \<open>Row-major index arithmetic: a flat position to a multi-index and back.\<close>

fun unravel :: "nat list \<Rightarrow> nat \<Rightarrow> nat list" where
  "unravel [] k = []"
| "unravel (d # ds) k = (k div prod_list ds) # unravel ds (k mod prod_list ds)"

fun ravel :: "nat list \<Rightarrow> nat list \<Rightarrow> nat" where
  "ravel (d # ds) (i # is) = i * prod_list ds + ravel ds is"
| "ravel _ _ = 0"

text \<open>
  Broadcasting aligns two shapes at their last dimension; two extents are compatible when
  they are equal or one of them is 1. \<open>broadcast_rev\<close> works on the reversed shapes.
\<close>

fun broadcast_rev :: "nat list \<Rightarrow> nat list \<Rightarrow> nat list option" where
  "broadcast_rev [] ys = Some ys"
| "broadcast_rev (x # xs) [] = Some (x # xs)"
| "broadcast_rev (x # xs) (y # ys) =
     (if x = y \<or> y = 1 then map_option ((#) x) (broadcast_rev xs ys)
      else if x = 1 then map_option ((#) y) (broadcast_rev xs ys)
      else None)"

definition broadcast_shapes :: "nat list \<Rightarrow> nat list \<Rightarrow> nat list option" where
  "broadcast_shapes a b = map_option rev (broadcast_rev (rev a) (rev b))"

text \<open>
  The position in a tensor of shape \<open>src\<close> that position \<open>k\<close> of its broadcast to shape
  \<open>tgt\<close> reads: the leading extra dimensions are dropped and every dimension of extent 1
  is read at 0.
\<close>

definition bindex :: "nat list \<Rightarrow> nat list \<Rightarrow> nat \<Rightarrow> nat" where
  "bindex src tgt k =
     ravel src (map2 (\<lambda>d i. if d = 1 then 0 else i) src
                  (drop (length tgt - length src) (unravel tgt k)))"

definition broadcast_to :: "nat list \<Rightarrow> 'a tensor \<Rightarrow> 'a tensor" where
  "broadcast_to tgt x =
     x\<lparr>tshape := tgt,
       tdata := map (\<lambda>k. tdata x ! bindex (tshape x) tgt k) [0..<prod_list tgt]\<rparr>"

text \<open>\<^verbatim>\<open>torch.arange(T, device=d)\<close>: the integers \<open>0 .. T-1\<close> on device \<open>d\<close>.\<close>

definition arange :: "nat \<Rightarrow> device \<Rightarrow> int tensor" where
  "arange T d = \<lparr>tshape = [T], tdata = map int [0..<T], tdevice = d\<rparr>"

text \<open>
  \<^verbatim>\<open>x.unsqueeze(dim)\<close> for a non-negative \<open>dim\<close>: a dimension of extent 1 is inserted at
  \<open>dim\<close>, which must be at most the number of dimensions.
\<close>

definition unsqueeze :: "nat \<Rightarrow> 'a tensor \<Rightarrow> error + 'a tensor" where
  "unsqueeze dim x =
     (if dim \<le> length (tshape x)
      then Inr (x\<lparr>tshape := take dim (tshape x) @ [1] @ drop dim (tshape x)\<rparr>)
      else Inl IndexError)"

text \<open>
  \<^verbatim>\<open>x.expand(*sizes)\<close>: the sizes have at least as many dimensions as \<open>x\<close>, and every
  dimension of \<open>x\<close>, aligned at the end, has the requested extent or extent 1.
\<close>

definition expandable :: "nat list \<Rightarrow> nat list \<Rightarrow> bool" where
  "expandable src tgt =
     (length src \<le> length tgt \<and>
      list_all (\<lambda>(s, g). s = g \<or> s = 1) (zip (rev src) (rev tgt)))"

definition expand :: "nat list \<Rightarrow> 'a tensor \<Rightarrow> error + 'a tensor" where
  "expand sizes x =
     (if expandable (tshape x) sizes then Inr (broadcast_to sizes x) else Inl RuntimeError)"

text \<open>
  \<^verbatim>\<open>a < b\<close> on tensors: both operands are on one device, their shapes are broadcast to a
  common shape and the elements are compared position by position.
\<close>

definition lt_t :: "int tensor \<Rightarrow> int tensor \<Rightarrow> error + bool tensor" where
  "lt_t a b =
     (if tdevice a \<noteq> tdevice b then Inl RuntimeError
      else case broadcast_shapes (tshape a) (tshape b) of
             None \<Rightarrow> Inl RuntimeError
           | Some s \<Rightarrow>
               Inr \<lparr>tshape = s,
                    tdata = map2 (<) (tdata (broadcast_to s a)) (tdata (broadcast_to s b)),
                    tdevice = tdevice a\<rparr>)"

text \<open>\<^verbatim>\<open>m.long()\<close> on a boolean tensor: \<open>True\<close> is 1 and \<open>False\<close> is 0.\<close>

definition long :: "bool tensor \<Rightarrow> int tensor" where
  "long m = \<lparr>tshape = tshape m, tdata = map (\<lambda>b. if b then 1 else 0) (tdata m),
            tdevice = tdevice m\<rparr>"

text \<open>
  \<^verbatim>\<open>x.to(device=d, non_blocking=nb)\<close>: the same shape and elements on device \<open>d\<close>. The
  flag asks for an asynchronous copy and does not change the tensor that results.
\<close>

definition tensor_to :: "device \<Rightarrow> bool \<Rightarrow> 'a tensor \<Rightarrow> 'a tensor" where
  "tensor_to d non_blocking x = x\<lparr>tdevice := d\<rparr>"

text \<open>\<^verbatim>\<open>len(x)\<close>: the first extent; a tensor without dimensions has no length.\<close>

definition tensor_len :: "'a tensor \<Rightarrow> error + nat" where
  "tensor_len x = (case tshape x of [] \<Rightarrow> Inl TypeError | n # _ \<Rightarrow> Inr n)"

text \<open>\<^verbatim>\<open>m[i, t]\<close> on a two-dimensional tensor, for non-negative indices.\<close>

definition item2 :: "'a tensor \<Rightarrow> nat \<Rightarrow> nat \<Rightarrow> error + 'a" where
  "item2 m i t =
     (case tshape m of
        [b, w] \<Rightarrow> if i < b \<and> t < w then Inr (tdata m ! ravel [b, w] [i, t]) else Inl IndexError
      | _ \<Rightarrow> Inl IndexError)"

section \<open>PaddedBatch\<close>

text \<open>
  The payload is a dict from feature name to tensor, kept as an association list in
  insertion order (the order \<^verbatim>\<open>values()\<close> iterates in), or a single tensor.
\<close>

datatype 'a payload = Dict "(string \<times> 'a tensor) list" | Tensor "'a tensor"

record 'a padded_batch =
  payload :: "'a payload"
  seq_lens :: "int tensor"

definition device :: "'a padded_batch \<Rightarrow> device" where
  "device self = tdevice (seq_lens self)"

definition len :: "'a padded_batch \<Rightarrow> error + nat" where
  "len self = tensor_len (seq_lens self)"

text \<open>
  \<^verbatim>\<open>to\<close> moves the length, then asks the payload for its \<^verbatim>\<open>items()\<close>, which only a dict
  has, and moves every value.
\<close>

definition to :: "device \<Rightarrow> bool \<Rightarrow> 'a padded_batch \<Rightarrow> error + 'a padded_batch" where
  "to d non_blocking self =
     (let length' = tensor_to d non_blocking (seq_lens self)
      in case payload self of
           Tensor x \<Rightarrow> Inl AttributeError
         | Dict kvs \<Rightarrow>
             Inr \<lparr>payload = Dict (map (\<lambda>(k, v). (k, tensor_to d non_blocking v)) kvs),
                  seq_lens = length'\<rparr>)"

text \<open>\<^verbatim>\<open>B, T = s\<close>: unpacking a sequence into exactly two names.\<close>

definition unpack2 :: "nat list \<Rightarrow> error + nat \<times> nat" where
  "unpack2 s = (case s of [b, t] \<Rightarrow> Inr (b, t) | _ \<Rightarrow> Inl ValueError)"

definition batch_dims :: "'a padded_batch \<Rightarrow> error + nat \<times> nat" where
  "batch_dims self =
     (case payload self of
        Dict kvs \<Rightarrow>
          (case kvs of [] \<Rightarrow> Inl StopIteration | kv # _ \<Rightarrow> unpack2 (tshape (snd kv)))
      | Tensor x \<Rightarrow> unpack2 (take 2 (tshape x)))"

definition seq_len_mask :: "'a padded_batch \<Rightarrow> error + int tensor" where
  "seq_len_mask self =
     (case batch_dims self of
        Inl e \<Rightarrow> Inl e
      | Inr (B, T) \<Rightarrow>
          (case unsqueeze 0 (arange T (tdevice (seq_lens self))) of
             Inl e \<Rightarrow> Inl e
           | Inr row \<Rightarrow>
          (case expand [B, T] row of
             Inl e \<Rightarrow> Inl e
           | Inr grid \<Rightarrow>
          (case unsqueeze 1 (seq_lens self) of
             Inl e \<Rightarrow> Inl e
           | Inr col \<Rightarrow>
          (case lt_t grid col of
             Inl e \<Rightarrow> Inl e
           | Inr m \<Rightarrow> Inr (long m))))))"

text \<open>
  What the data model asks of a batch of \<open>B\<close> sequences padded to \<open>T\<close> positions: every
  tensor of a dict payload has shape \<open>(B, T)\<close>, a single tensor has shape \<open>(B, T)\<close> or
  \<open>(B, T, H)\<close>, and the length is a well-formed tensor of shape \<open>(B,)\<close>. The constructor
  checks none of it.
\<close>

definition valid_payload :: "nat \<Rightarrow> nat \<Rightarrow> 'a payload \<Rightarrow> bool" where
  "valid_payload B T p =
     (case p of
        Dict kvs \<Rightarrow> kvs \<noteq> [] \<and> list_all (\<lambda>kv. tshape (snd kv) = [B, T]) kvs
      | Tensor x \<Rightarrow>
          tshape x = [B, T] \<or> (length (tshape x) = 3 \<and> take 2 (tshape x) = [B, T]))"

definition valid_batch :: "nat \<Rightarrow> nat \<Rightarrow> 'a padded_batch \<Rightarrow> bool" where
  "valid_batch B T self =
     (valid_payload B T (payload self) \<and> tshape (seq_lens self) = [B] \<and>
      wf_tensor (seq_lens self))"

text \<open>The batch of the class's docstring, and the same data under a feature name.\<close>

definition example_payload :: "int tensor" where
  "example_payload =
     \<lparr>tshape = [3, 4], tdata = [1, 2, 0, 0, 3, 4, 5, 6, 7, 8, 9, 0], tdevice = CPU\<rparr>"

definition example_length :: "int tensor" where
  "example_length = \<lparr>tshape = [3], tdata = [2, 4, 3], tdevice = CPU\<rparr>"

definition example_tensor_batch :: "int padded_batch" where
  "example_tensor_batch = \<lparr>payload = Tensor example_payload, seq_lens = example_length\<rparr>"

definition example_dict_batch :: "int padded_batch" where
  "example_dict_batch =
     \<lparr>payload = Dict [(''amount'', example_payload)], seq_lens = example_length\<rparr>"

section \<open>The training entry point\<close>

text \<open>
  \<^verbatim>\<open>main\<close> talks to components this development does not own: the configuration, the
  seeding and logging calls, the data and objective classes and the trainer. Each call is
  recorded as an event in a trace, in the order the calls are made, and a program is a
  function from the trace so far to its outcome and the extended trace.
\<close>

datatype data_module_class = ColesDataModuleTrain | CpcDataModuleTrain

datatype pl_module_class = CoLESModule | CpcModule

text \<open>The \<^verbatim>\<open>__name__\<close> of each class.\<close>

fun data_module_name :: "data_module_class \<Rightarrow> string" where
  "data_module_name ColesDataModuleTrain = ''ColesDataModuleTrain''"
| "data_module_name CpcDataModuleTrain = ''CpcDataModuleTrain''"

fun pl_module_name :: "pl_module_class \<Rightarrow> string" where
  "pl_module_name CoLESModule = ''CoLESModule''"
| "pl_module_name CpcModule = ''CpcModule''"

text \<open>
  The configuration object comes from \<^verbatim>\<open>get_conf\<close>, which is not part of the sources at
  hand; it is taken as a parameter. It has one field for each key \<^verbatim>\<open>main\<close> reads, \<open>None\<close>
  when the key is absent; the blocks handed on to the components are opaque values of
  type \<open>'b\<close>.
\<close>

record 'b conf =
  seed_everything :: "int option"
  params_data_module_name :: "string option"
  params_pl_module_name :: "string option"
  params :: "'b option"
  data_module :: "'b option"
  trainer :: "'b option"
  model_path :: "string option"

text \<open>
  The external components: what each constructor and each trainer method answers, a
  value or the description of the exception it raised.
\<close>

record ('b, 'm, 'd, 't) world =
  pl_module_init :: "pl_module_class \<Rightarrow> 'b \<Rightarrow> string + 'm"
  data_module_init :: "data_module_class \<Rightarrow> 'b \<Rightarrow> 'm \<Rightarrow> string + 'd"
  trainer_init :: "'b \<Rightarrow> string + 't"
  trainer_fit :: "'t \<Rightarrow> 'm \<Rightarrow> 'd \<Rightarrow> string + unit"
  trainer_save_checkpoint :: "'t \<Rightarrow> string \<Rightarrow> bool \<Rightarrow> string + unit"

datatype ('b, 'm, 'd, 't) event =
    SeedEverything int
  | LogInfo string
  | PlModuleInit pl_module_class 'b
  | DataModuleInit data_module_class 'b 'm
  | TrainerInit 'b
  | TrainerFit 't 'm 'd
  | SaveCheckpoint 't string bool

type_synonym ('ev, 'a) prog = "'ev list \<Rightarrow> (error + 'a) \<times> 'ev list"

definition return :: "'a \<Rightarrow> ('ev, 'a) prog" where
  "return x = (\<lambda>tr. (Inr x, tr))"

definition raise :: "error \<Rightarrow> ('ev, 'a) prog" where
  "raise e = (\<lambda>tr. (Inl e, tr))"

definition emit :: "'ev \<Rightarrow> ('ev, unit) prog" where
  "emit ev = (\<lambda>tr. (Inr (), tr @ [ev]))"

definition bindE :: "('ev, 'a) prog \<Rightarrow> ('a \<Rightarrow> ('ev, 'b) prog) \<Rightarrow> ('ev, 'b) prog" where
  "bindE m f = (\<lambda>tr. case m tr of (Inl e, tr') \<Rightarrow> (Inl e, tr') | (Inr x, tr') \<Rightarrow> f x tr')"

text \<open>A call of an external component: the call is recorded, then it answers.\<close>

definition call :: "'ev \<Rightarrow> string + 'a \<Rightarrow> ('ev, 'a) prog" where
  "call ev answer =
     bindE (emit ev)
       (\<lambda>_. case answer of Inl x \<Rightarrow> raise (DownstreamError x) | Inr v \<Rightarrow> return v)"

text \<open>\<^verbatim>\<open>conf[key]\<close>: the value, or the configuration's exception for a missing key.\<close>

definition conf_get :: "string \<Rightarrow> 'a option \<Rightarrow> ('ev, 'a) prog" where
  "conf_get key v = (case v of None \<Rightarrow> raise (ConfigMissingException key) | Some x \<Rightarrow> return x)"

text \<open>
  The loop \<^verbatim>\<open>for m in [...]: if m.__name__ == name: found = m; break\<close>: the first class
  of the list with that name, \<open>None\<close> when the loop ends without a match.
\<close>

fun find_class :: "('c \<Rightarrow> string) \<Rightarrow> 'c list \<Rightarrow> string \<Rightarrow> 'c option" where
  "find_class name_of [] n = None"
| "find_class name_of (m # ms) n = (if name_of m = n then Some m else find_class name_of ms n)"

definition data_modules :: "data_module_class list" where
  "data_modules = [ColesDataModuleTrain, CpcDataModuleTrain]"

definition pl_modules :: "pl_module_class list" where
  "pl_modules = [CoLESModule, CpcModule]"

definition resolve_data_module :: "'b conf \<Rightarrow> ('ev, data_module_class) prog" where
  "resolve_data_module conf =
     bindE (conf_get ''params.data_module_name'' (params_data_module_name conf)) (\<lambda>n.
       case find_class data_module_name data_modules n of
         None \<Rightarrow> raise (NotImplementedError (''Unknown data module '' @ n))
       | Some m \<Rightarrow> return m)"

definition resolve_pl_module :: "'b conf \<Rightarrow> ('ev, pl_module_class) prog" where
  "resolve_pl_module conf =
     bindE (conf_get ''params.pl_module_name'' (params_pl_module_name conf)) (\<lambda>n.
       case find_class pl_module_name pl_modules n of
         None \<Rightarrow> raise (NotImplementedError (''Unknown pl module '' @ n))
       | Some m \<Rightarrow> return m)"

text \<open>
  The body of \<^verbatim>\<open>main\<close> in the order of the source: constructing the objective, the data
  component and the trainer and running the trainer (\<open>train\<close>), saving the weights when a
  path is configured (\<open>save_weights\<close>), and before both the seeding and the two lookups.
\<close>

definition train ::
  "('b, 'm, 'd, 't) world \<Rightarrow> 'b conf \<Rightarrow> data_module_class \<Rightarrow> pl_module_class \<Rightarrow>
   (('b, 'm, 'd, 't) event, 't) prog" where
  "train w conf data_module_cls pl_module_cls =
     bindE (conf_get ''params'' (params conf)) (\<lambda>p.
     bindE (call (PlModuleInit pl_module_cls p) (pl_module_init w pl_module_cls p)) (\<lambda>model.
     bindE (conf_get ''data_module'' (data_module conf)) (\<lambda>d.
     bindE (call (DataModuleInit data_module_cls d model)
              (data_module_init w data_module_cls d model)) (\<lambda>dm.
     bindE (conf_get ''trainer'' (trainer conf)) (\<lambda>t.
     bindE (call (TrainerInit t) (trainer_init w t)) (\<lambda>trainer_obj.
     bindE (call (TrainerFit trainer_obj model dm) (trainer_fit w trainer_obj model dm)) (\<lambda>_.
     return trainer_obj)))))))"

definition save_weights ::
  "('b, 'm, 'd, 't) world \<Rightarrow> 'b conf \<Rightarrow> 't \<Rightarrow> (('b, 'm, 'd, 't) event, unit) prog" where
  "save_weights w conf trainer_obj =
     (case model_path conf of
        None \<Rightarrow> return ()
      | Some path \<Rightarrow>
          bindE (call (SaveCheckpoint trainer_obj path True)
                   (trainer_save_checkpoint w trainer_obj path True)) (\<lambda>_.
          emit (LogInfo (''Model weights saved to '' @ [CHR 0x22] @ path @ [CHR 0x22]))))"

definition main ::
  "('b, 'm, 'd, 't) world \<Rightarrow> 'b conf \<Rightarrow> (('b, 'm, 'd, 't) event, unit) prog" where
  "main w conf =
     bindE (case seed_everything conf of
              Some s \<Rightarrow> emit (SeedEverything s)
            | None \<Rightarrow> return ()) (\<lambda>_.
     bindE (resolve_data_module conf) (\<lambda>data_module_cls.
     bindE (emit (LogInfo (data_module_name data_module_cls @ '' used''))) (\<lambda>_.
     bindE (resolve_pl_module conf) (\<lambda>pl_module_cls.
     bindE (emit (LogInfo (pl_module_name pl_module_cls @ '' used''))) (\<lambda>_.
     bindE (train w conf data_module_cls pl_module_cls) (\<lambda>trainer_obj.
     save_weights w conf trainer_obj))))))"

text \<open>The calls of a trace that construct or drive a component, without seeding and logging.\<close>

fun is_component_call :: "('b, 'm, 'd, 't) event \<Rightarrow> bool" where
  "is_component_call (SeedEverything _) = False"
| "is_component_call (LogInfo _) = False"
| "is_component_call _ = True"

fun is_save :: "('b, 'm, 'd, 't) event \<Rightarrow> bool" where
  "is_save (SaveCheckpoint _ _ _) = True"
| "is_save _ = False"

fun is_trainer_init :: "('b, 'm, 'd, 't) event \<Rightarrow> bool" where
  "is_trainer_init (TrainerInit _) = True"
| "is_trainer_init _ = False"

text \<open>What the trace holds once the optional seeding is done.\<close>

definition seeded :: "'b conf \<Rightarrow> ('b, 'm, 'd, 't) event list" where
  "seeded conf = (case seed_everything conf of None \<Rightarrow> [] | Some s \<Rightarrow> [SeedEverything s])"

text \<open>
  A world in which every component answers, and a configuration that names two known
  classes, has every block and a path for the weights.
\<close>

definition example_world :: "(nat, nat, nat, nat) world" where
  "example_world =
     \<lparr>pl_module_init = (\<lambda>c b. Inr (b + 1)),
      data_module_init = (\<lambda>c b m. Inr (b + m)),
      trainer_init = (\<lambda>b. Inr (b * 2)),
      trainer_fit = (\<lambda>t m d. Inr ()),
      trainer_save_checkpoint = (\<lambda>t p wo. Inr ())\<rparr>"

definition example_conf :: "nat conf" where
  "example_conf =
     \<lparr>seed_everything = Some 42,
      params_data_module_name = Some ''ColesDataModuleTrain'',
      params_pl_module_name = Some ''CpcModule'',
      params = Some 1, data_module = Some 2, trainer = Some 3,
      model_path = Some ''model.p''\<rparr>"

section \<open>The GPT datasets\<close>

text \<open>
  \<^verbatim>\<open>GptDataset\<close> and \<^verbatim>\<open>GptIterableDataset\<close> are class statements with an empty body. What
  such a class does is decided by the language: an attribute is looked up in the classes
  of the method resolution order, which is the C3 linearisation of the class and its
  bases. A class is its name, its bases and the attributes its own body defines; the
  attribute values are of an arbitrary type \<open>'v\<close>.
\<close>

datatype 'v pyclass = PyClass (cname: string) (bases: "'v pyclass list") (body: "(string \<times> 'v) list")

text \<open>
  The C3 merge of a list of sequences: the head of the first sequence that is in the tail
  of no sequence is taken and removed from the sequences it heads; the merge fails when no
  head qualifies.
\<close>

definition good_head :: "'a list list \<Rightarrow> 'a \<Rightarrow> bool" where
  "good_head seqs h = list_all (\<lambda>s. h \<notin> set (tl s)) seqs"

definition drop_head :: "'a \<Rightarrow> 'a list \<Rightarrow> 'a list" where
  "drop_head h s = (if hd s = h then tl s else s)"

function c3_merge :: "'a list list \<Rightarrow> 'a list option" where
  "c3_merge seqs =
     (let seqs' = filter (\<lambda>s. s \<noteq> []) seqs
      in if seqs' = [] then Some []
         else case find (good_head seqs') (map hd seqs') of
                None \<Rightarrow> None
              | Some h \<Rightarrow> map_option ((#) h) (c3_merge (map (drop_head h) seqs')))"
  by pat_completeness auto
termination
proof (relation "measure (\<lambda>seqs. sum_list (map length seqs))", goal_cases)
  case 1
  then show ?case by simp
next
  case (2 seqs seqs' h)
  have le: "sum_list (map length (map (drop_head h) xs)) \<le> sum_list (map length xs)"
    for xs :: "'a list list"
    by (induction xs) (auto simp: drop_head_def)
  have lt: "h \<in> set (map hd xs) \<Longrightarrow> \<forall>s \<in> set xs. s \<noteq> [] \<Longrightarrow>
      sum_list (map length (map (drop_head h) xs)) < sum_list (map length xs)"
    for xs :: "'a list list"
  proof (induction xs)
    case Nil
    then show ?case by simp
  next
    case (Cons s xs)
    show ?case
    proof (cases "hd s = h")
      case True
      with Cons.prems have "length (drop_head h s) < length s"
        by (cases s) (auto simp: drop_head_def)
      with le[of xs] show ?thesis by simp
    next
      case False
      with Cons.prems have "h \<in> set (map hd xs)" by auto
      with Cons have "sum_list (map length (map (drop_head h) xs)) < sum_list (map length xs)"
        by auto
      moreover have "length (drop_head h s) \<le> length s" by (simp add: drop_head_def)
      ultimately show ?thesis by simp
    qed
  qed
  from 2(3) have "h \<in> set (map hd seqs')"
    by (auto simp: find_Some_iff)
  moreover have "\<forall>s \<in> set seqs'. s \<noteq> []" using 2(1) by auto
  ultimately have "sum_list (map length (map (drop_head h) seqs')) < sum_list (map length seqs')"
    by (rule lt)
  also have "\<dots> \<le> sum_list (map length seqs)"
    unfolding 2(1) by (induction seqs) auto
  finally show ?case by simp
qed

text \<open>
  The method resolution order of a class: the class, then the merge of the orders of its
  bases and the list of the bases. \<open>None\<close> is the \<^verbatim>\<open>TypeError\<close> of a class statement whose
  bases have no consistent order.
\<close>

fun mro :: "'v pyclass \<Rightarrow> 'v pyclass list option" where
  "mro (PyClass n bs b) =
     (case those (map mro bs) of
        None \<Rightarrow> None
      | Some ls \<Rightarrow> map_option ((#) (PyClass n bs b)) (c3_merge (ls @ [bs])))"

text \<open>Attribute lookup on a class: the first class of the order whose body defines it.\<close>

fun lookup_mro :: "string \<Rightarrow> 'v pyclass list \<Rightarrow> 'v option" where
  "lookup_mro a [] = None"
| "lookup_mro a (c # cs) = (case map_of (body c) a of Some v \<Rightarrow> Some v | None \<Rightarrow> lookup_mro a cs)"

definition class_getattr :: "'v pyclass \<Rightarrow> string \<Rightarrow> 'v option" where
  "class_getattr C a = (case mro C of None \<Rightarrow> None | Some l \<Rightarrow> lookup_mro a l)"

text \<open>
  The two class statements of the source. \<^verbatim>\<open>MlmDataset\<close> and the library's
  \<^verbatim>\<open>IterableDataset\<close> are not part of the sources at hand and are parameters.
\<close>

definition GptDataset :: "'v pyclass \<Rightarrow> 'v pyclass" where
  "GptDataset MlmDataset = PyClass ''GptDataset'' [MlmDataset] []"

definition GptIterableDataset :: "'v pyclass \<Rightarrow> 'v pyclass \<Rightarrow> 'v pyclass" where
  "GptIterableDataset MlmDataset IterableDataset =
     PyClass ''GptIterableDataset'' [GptDataset MlmDataset, IterableDataset] []"

text \<open>A small hierarchy to run the definitions on; attribute values are numbers.\<close>

definition example_Dataset :: "nat pyclass" where
  "example_Dataset = PyClass ''Dataset'' [] [(''__getitem__'', 1), (''__add__'', 2)]"

definition example_IterableDataset :: "nat pyclass" where
  "example_IterableDataset = PyClass ''IterableDataset'' [example_Dataset] [(''__iter__'', 3), (''__add__'', 4)]"

definition example_MlmDataset :: "nat pyclass" where
  "example_MlmDataset = PyClass ''MlmDataset'' [example_Dataset] [(''__init__'', 5), (''__getitem__'', 6), (''__len__'', 7)]"

section \<open>Properties of PaddedBatch\<close>

subsection \<open>The mask\<close>

lemma flat_lt: "i < B \<Longrightarrow> t < T \<Longrightarrow> i * T + t < B * (T::nat)"
proof -
  assume a: "i < B" "t < T"
  then have "i * T + t < Suc i * T" by simp
  also have "\<dots> \<le> B * T" using a(1) by (intro mult_le_mono1) simp
  finally show ?thesis .
qed

lemma batch_dims_valid: "valid_batch B T self \<Longrightarrow> batch_dims self = Inr (B, T)"
  by (auto simp: valid_batch_def valid_payload_def batch_dims_def unpack2_def
           split: payload.splits list.splits)

lemma bindex_grid: "i < B \<Longrightarrow> t < T \<Longrightarrow> bindex [B, T] [B, T] (i * T + t) = i * T + t"
  by (simp add: bindex_def)

lemma bindex_row: "i < B \<Longrightarrow> t < T \<Longrightarrow> bindex [Suc 0, T] [B, T] (i * T + t) = t"
  by (simp add: bindex_def)

lemma bindex_col: "i < B \<Longrightarrow> t < T \<Longrightarrow> bindex [B, Suc 0] [B, T] (i * T + t) = i"
  by (simp add: bindex_def)

lemma broadcast_shapes_col: "broadcast_shapes [B, T] [B, Suc 0] = Some [B, T]"
  by (simp add: broadcast_shapes_def)

lemma seq_len_mask_valid:
  assumes "batch_dims self = Inr (B, T)" "tshape (seq_lens self) = [B]"
  shows "\<exists>m. seq_len_mask self = Inr m \<and> tshape m = [B, T] \<and>
           tdevice m = tdevice (seq_lens self) \<and> length (tdata m) = B * T \<and>
           (\<forall>i<B. \<forall>t<T. tdata m ! (i * T + t) =
              (if int t < tdata (seq_lens self) ! i then 1 else 0))"
proof -
  define row :: "int tensor" where
    "row = \<lparr>tshape = [B, T],
            tdata = map (\<lambda>k. map int [0..<T] ! bindex [Suc 0, T] [B, T] k) [0..<B * T],
            tdevice = tdevice (seq_lens self)\<rparr>"
  define m :: "int tensor" where
    "m = long \<lparr>tshape = [B, T],
           tdata = map2 (<) (tdata (broadcast_to [B, T] row))
                     (tdata (broadcast_to [B, T] ((seq_lens self)\<lparr>tshape := [B, Suc 0]\<rparr>))),
           tdevice = tdevice (seq_lens self)\<rparr>"
  have 1: "seq_len_mask self = Inr m"
    using assms
    by (simp add: seq_len_mask_def unsqueeze_def arange_def expand_def expandable_def lt_t_def
        broadcast_shapes_col broadcast_to_def m_def row_def)
  have 2: "tshape m = [B, T]" "tdevice m = tdevice (seq_lens self)" "length (tdata m) = B * T"
    by (simp_all add: m_def long_def broadcast_to_def)
  have 3: "tdata m ! (i * T + t) = (if int t < tdata (seq_lens self) ! i then 1 else 0)"
    if "i < B" "t < T" for i t
  proof -
    have k: "i * T + t < B * T" using that by (rule flat_lt)
    show ?thesis
      using that k
      by (simp add: m_def row_def long_def broadcast_to_def bindex_grid bindex_row bindex_col)
  qed
  from 1 2 3 show ?thesis by blast
qed

text \<open>
  The end-to-end example of the data model: the payload \<open>amount\<close> with lengths 2, 4 and 3
  has the mask \<open>[[1,1,0,0],[1,1,1,1],[1,1,1,0]]\<close> and three sequences.
\<close>

lemma scenario_A:
  "seq_len_mask example_dict_batch =
     Inr \<lparr>tshape = [3, 4], tdata = [1, 1, 0, 0, 1, 1, 1, 1, 1, 1, 1, 0], tdevice = CPU\<rparr> \<and>
   len example_dict_batch = Inr 3"
  by code_simp

text \<open>
  Claim C1. For a batch whose payload is a dict of \<open>(B, T)\<close> tensors or a single tensor of
  shape \<open>(B, T)\<close> or \<open>(B, T, H)\<close>, and whose length has shape \<open>(B,)\<close>, \<open>seq_len_mask\<close>
  returns a mask of shape \<open>(B, T)\<close>, and for every sequence \<open>i < B\<close> and position \<open>t < T\<close> the
  entry \<open>mask[i, t]\<close> is 0 or 1, and it is 1 exactly when \<open>t < length[i]\<close>.
\<close>

theorem seq_len_mask_iff:
  assumes "valid_batch B T self" "i < B" "t < T"
  shows "\<exists>m v. seq_len_mask self = Inr m \<and> tshape m = [B, T] \<and> item2 m i t = Inr v \<and>
           (v = 0 \<or> v = 1) \<and> (v = 1 \<longleftrightarrow> int t < tdata (seq_lens self) ! i)"
proof -
  have s: "tshape (seq_lens self) = [B]" using assms(1) by (simp add: valid_batch_def)
  from seq_len_mask_valid[OF batch_dims_valid[OF assms(1)] s]
  obtain m where m: "seq_len_mask self = Inr m" "tshape m = [B, T]"
    "\<forall>i<B. \<forall>t<T. tdata m ! (i * T + t) = (if int t < tdata (seq_lens self) ! i then 1 else 0)"
    by blast
  have "item2 m i t = Inr (if int t < tdata (seq_lens self) ! i then 1 else 0)"
    using m(2,3) assms(2,3) by (simp add: item2_def)
  with m(1,2) show ?thesis by auto
qed

theorem seq_len_mask_iff_witness:
  "valid_batch 3 4 example_dict_batch \<and>
   (\<exists>m v. seq_len_mask example_dict_batch = Inr m \<and> tshape m = [3, 4] \<and>
      item2 m 1 3 = Inr v \<and> (v = 0 \<or> v = 1) \<and>
      (v = 1 \<longleftrightarrow> int 3 < tdata (seq_lens example_dict_batch) ! 1))"
proof -
  have v: "valid_batch 3 4 example_dict_batch"
    by (simp add: valid_batch_def valid_payload_def example_dict_batch_def example_payload_def
        example_length_def wf_tensor_def)
  have i: "(1::nat) < 3" and t: "(3::nat) < 4" by simp_all
  from seq_len_mask_iff[OF v i t] v show ?thesis by simp
qed

subsection \<open>The number of sequences\<close>

text \<open>
  Claim C8. For a batch built from a valid pair of payload and length, \<open>len\<close> returns the
  first extent of the length tensor, which is the number \<open>B\<close> of sequences.
\<close>

theorem len_is_length_extent:
  assumes "valid_batch B T self"
  shows "len self = Inr (tshape (seq_lens self) ! 0) \<and> len self = Inr B"
  using assms by (simp add: valid_batch_def len_def tensor_len_def)

theorem len_is_length_extent_witness:
  "valid_batch 3 4 example_tensor_batch \<and>
   len example_tensor_batch = Inr (tshape (seq_lens example_tensor_batch) ! 0) \<and>
   len example_tensor_batch = Inr 3"
proof -
  have v: "valid_batch 3 4 example_tensor_batch"
    by (simp add: valid_batch_def valid_payload_def example_tensor_batch_def example_payload_def
        example_length_def wf_tensor_def)
  from len_is_length_extent[OF v] v show ?thesis
    by (simp add: example_tensor_batch_def example_length_def)
qed

subsection \<open>The device\<close>

lemma seq_len_mask_device:
  "seq_len_mask self = Inr m \<Longrightarrow> tdevice m = tdevice (seq_lens self)"
  by (auto simp: seq_len_mask_def unsqueeze_def arange_def expand_def lt_t_def long_def
      broadcast_to_def split: sum.splits if_splits option.splits prod.splits)

text \<open>
  Claim C10. The \<open>device\<close> of a batch is the device of its length tensor, whatever the
  payload is and wherever it lives. On every valid batch \<open>seq_len_mask\<close> returns a mask, of
  shape \<open>(B, T)\<close>, and that mask is on the device of the length tensor; and whenever
  \<open>seq_len_mask\<close> returns a mask at all, the mask is on that device.
\<close>

theorem device_is_length_device:
  "device \<lparr>payload = p, seq_lens = l\<rparr> = tdevice l \<and>
   (\<forall>B T. valid_batch B T \<lparr>payload = p, seq_lens = l\<rparr> \<longrightarrow>
      (\<exists>m. seq_len_mask \<lparr>payload = p, seq_lens = l\<rparr> = Inr m \<and> tshape m = [B, T] \<and>
           tdevice m = device \<lparr>payload = p, seq_lens = l\<rparr> \<and> tdevice m = tdevice l)) \<and>
   (\<forall>m. seq_len_mask \<lparr>payload = p, seq_lens = l\<rparr> = Inr m \<longrightarrow> tdevice m = tdevice l)"
proof (intro conjI allI impI)
  show "device \<lparr>payload = p, seq_lens = l\<rparr> = tdevice l"
    by (simp add: device_def)
next
  fix B T
  assume v: "valid_batch B T \<lparr>payload = p, seq_lens = l\<rparr>"
  then have s: "tshape (seq_lens \<lparr>payload = p, seq_lens = l\<rparr>) = [B]"
    by (simp add: valid_batch_def)
  from seq_len_mask_valid[OF batch_dims_valid[OF v] s]
  obtain m where "seq_len_mask \<lparr>payload = p, seq_lens = l\<rparr> = Inr m" "tshape m = [B, T]"
    "tdevice m = tdevice (seq_lens \<lparr>payload = p, seq_lens = l\<rparr>)"
    by blast
  then show "\<exists>m. seq_len_mask \<lparr>payload = p, seq_lens = l\<rparr> = Inr m \<and> tshape m = [B, T] \<and>
      tdevice m = device \<lparr>payload = p, seq_lens = l\<rparr> \<and> tdevice m = tdevice l"
    by (simp add: device_def)
next
  fix m
  assume "seq_len_mask \<lparr>payload = p, seq_lens = l\<rparr> = Inr m"
  from seq_len_mask_device[OF this] show "tdevice m = tdevice l" by simp
qed

text \<open>
  The theorem at two batches whose payload and length live on different devices: the
  length on \<open>CUDA 0\<close> with the payload on the CPU, and the length on the CPU with the
  payload on \<open>CUDA 0\<close>. The mask follows the length both times.
\<close>

theorem device_is_length_device_witness:
  "(valid_batch 3 4 \<lparr>payload = Dict [(''amount'', example_payload)],
                     seq_lens = tensor_to (CUDA 0) False example_length\<rparr> \<and>
    tdevice example_payload = CPU \<and>
    device \<lparr>payload = Dict [(''amount'', example_payload)],
            seq_lens = tensor_to (CUDA 0) False example_length\<rparr> = CUDA 0 \<and>
    (\<exists>m. seq_len_mask \<lparr>payload = Dict [(''amount'', example_payload)],
                        seq_lens = tensor_to (CUDA 0) False example_length\<rparr> = Inr m \<and>
         tshape m = [3, 4] \<and> tdevice m = CUDA 0)) \<and>
   (valid_batch 3 4 \<lparr>payload = Tensor (tensor_to (CUDA 0) False example_payload),
                     seq_lens = example_length\<rparr> \<and>
    device \<lparr>payload = Tensor (tensor_to (CUDA 0) False example_payload),
            seq_lens = example_length\<rparr> = CPU \<and>
    (\<exists>m. seq_len_mask \<lparr>payload = Tensor (tensor_to (CUDA 0) False example_payload),
                        seq_lens = example_length\<rparr> = Inr m \<and>
         tshape m = [3, 4] \<and> tdevice m = CPU))"
proof -
  let ?p1 = "Dict [(''amount'', example_payload)]"
  let ?l1 = "tensor_to (CUDA 0) False example_length"
  let ?p2 = "Tensor (tensor_to (CUDA 0) False example_payload)"
  have v1: "valid_batch 3 4 \<lparr>payload = ?p1, seq_lens = ?l1\<rparr>"
    by (simp add: valid_batch_def valid_payload_def tensor_to_def example_payload_def
        example_length_def wf_tensor_def)
  have v2: "valid_batch 3 4 \<lparr>payload = ?p2, seq_lens = example_length\<rparr>"
    by (simp add: valid_batch_def valid_payload_def tensor_to_def example_payload_def
        example_length_def wf_tensor_def)
  have d1: "tdevice ?l1 = CUDA 0" by (simp add: tensor_to_def)
  have d2: "tdevice example_length = CPU" by (simp add: example_length_def)
  have c: "tdevice example_payload = CPU" by (simp add: example_payload_def)
  note t1 = device_is_length_device[of ?p1 ?l1]
  note t2 = device_is_length_device[of ?p2 example_length]
  from t1 v1 have A: "device \<lparr>payload = ?p1, seq_lens = ?l1\<rparr> = tdevice ?l1"
    "\<exists>m. seq_len_mask \<lparr>payload = ?p1, seq_lens = ?l1\<rparr> = Inr m \<and> tshape m = [3, 4] \<and>
         tdevice m = tdevice ?l1"
    by blast+
  from t2 v2 have B: "device \<lparr>payload = ?p2, seq_lens = example_length\<rparr> = tdevice example_length"
    "\<exists>m. seq_len_mask \<lparr>payload = ?p2, seq_lens = example_length\<rparr> = Inr m \<and> tshape m = [3, 4] \<and>
         tdevice m = tdevice example_length"
    by blast+
  from A B v1 v2 c show ?thesis unfolding d1 d2 by blast
qed

subsection \<open>Moving a batch to a device\<close>

text \<open>
  On a dict payload \<open>to\<close> returns a new batch with the length and every value on the
  target device, shapes and elements as they were; moving a batch to the device it is on
  gives the batch back.
\<close>

lemma to_dict_payload:
  "to d nb \<lparr>payload = Dict kvs, seq_lens = l\<rparr> =
     Inr \<lparr>payload = Dict (map (\<lambda>(k, v). (k, tensor_to d nb v)) kvs),
          seq_lens = tensor_to d nb l\<rparr>"
  by (simp add: to_def)

lemma tensor_to_fields:
  "tshape (tensor_to d nb x) = tshape x" "tdata (tensor_to d nb x) = tdata x"
  "tdevice (tensor_to d nb x) = d"
  by (simp_all add: tensor_to_def)

lemma tensor_to_same: "tdevice x = d \<Longrightarrow> tensor_to d nb x = x"
  by (auto simp: tensor_to_def)

lemma to_dict_same_device:
  assumes "list_all (\<lambda>kv. tdevice (snd kv) = tdevice l) kvs"
  shows "to (tdevice l) nb \<lparr>payload = Dict kvs, seq_lens = l\<rparr> =
           Inr \<lparr>payload = Dict kvs, seq_lens = l\<rparr>"
proof -
  have "map (\<lambda>(k, v). (k, tensor_to (tdevice l) nb v)) kvs = kvs"
    using assms by (induction kvs) (auto simp: tensor_to_same)
  then show ?thesis by (simp add: to_dict_payload tensor_to_same)
qed

text \<open>
  Claim C2. \<open>to\<close> should return a moved batch for a dict payload and for a single-tensor
  payload alike. On a single tensor it raises instead: a tensor has no \<^verbatim>\<open>items()\<close>. The
  batch of the class's own docstring is such a batch.
\<close>

theorem to_tensor_payload_raises:
  "to d nb \<lparr>payload = Tensor x, seq_lens = l\<rparr> = Inl AttributeError \<and>
   to CPU False example_tensor_batch = Inl AttributeError"
  by (simp add: to_def example_tensor_batch_def)

text \<open>
  Claim C3. Moving a batch to the device it is on, and back, should give a batch with
  equal tensors. For the batch of the docstring, whose payload is a single tensor, the
  first move already raises, so there is no moved batch to compare.
\<close>

theorem to_round_trip_tensor_payload_raises:
  "(case to (device example_tensor_batch) False example_tensor_batch of
      Inl e \<Rightarrow> Inl e
    | Inr moved \<Rightarrow> to (device example_tensor_batch) False moved) = Inl AttributeError \<and>
   (\<forall>moved. to (device example_tensor_batch) False example_tensor_batch \<noteq> Inr moved)"
  by (simp add: to_def example_tensor_batch_def)

section \<open>Properties of the training entry point\<close>

subsection \<open>Programs over a trace\<close>

lemma bindE_return: "bindE (return x) f = f x"
  by (simp add: bindE_def return_def)

lemma bindE_raise: "bindE (raise e) f = raise e"
  by (simp add: bindE_def raise_def)

lemma bindE_emit: "bindE (emit ev) f tr = f () (tr @ [ev])"
  by (simp add: bindE_def emit_def)

lemma bindE_call:
  "bindE (call ev r) f tr =
     (case r of Inl x \<Rightarrow> (Inl (DownstreamError x), tr @ [ev]) | Inr v \<Rightarrow> f v (tr @ [ev]))"
  by (simp add: bindE_def call_def emit_def raise_def return_def split: sum.splits)

lemma bindE_conf_get:
  "bindE (conf_get key v) f tr =
     (case v of None \<Rightarrow> (Inl (ConfigMissingException key), tr) | Some x \<Rightarrow> f x tr)"
  by (simp add: bindE_def conf_get_def raise_def return_def split: option.splits)

lemma raise_apply: "raise e tr = (Inl e, tr)"
  by (simp add: raise_def)

lemma return_apply: "return x tr = (Inr x, tr)"
  by (simp add: return_def)

lemma emit_apply: "emit ev tr = (Inr (), tr @ [ev])"
  by (simp add: emit_def)

lemmas prog_simps = bindE_return bindE_raise bindE_emit bindE_call bindE_conf_get
  raise_apply return_apply emit_apply

lemma find_data_iff: "find_class data_module_name data_modules n = Some c \<longleftrightarrow> data_module_name c = n"
  by (cases c) (auto simp: data_modules_def)

lemma find_pl_iff: "find_class pl_module_name pl_modules n = Some c \<longleftrightarrow> pl_module_name c = n"
  by (cases c) (auto simp: pl_modules_def)

lemma find_data_None: "find_class data_module_name data_modules n = None \<longleftrightarrow> n \<notin> data_module_name ` set data_modules"
  by (auto simp: data_modules_def)

lemma find_pl_None: "find_class pl_module_name pl_modules n = None \<longleftrightarrow> n \<notin> pl_module_name ` set pl_modules"
  by (auto simp: pl_modules_def)

lemma find_data_name: "find_class data_module_name data_modules (data_module_name dc) = Some dc"
  by (simp add: find_data_iff)

lemma find_pl_name: "find_class pl_module_name pl_modules (pl_module_name pc) = Some pc"
  by (simp add: find_pl_iff)

lemma resolve_data_known:
  "params_data_module_name conf = Some (data_module_name dc) \<Longrightarrow>
   resolve_data_module conf = return dc"
  by (simp add: resolve_data_module_def conf_get_def bindE_return find_data_name)

lemma resolve_pl_known:
  "params_pl_module_name conf = Some (pl_module_name pc) \<Longrightarrow>
   resolve_pl_module conf = return pc"
  by (simp add: resolve_pl_module_def conf_get_def bindE_return find_pl_name)

lemma resolve_data_unknown:
  "params_data_module_name conf = Some dn \<Longrightarrow> dn \<notin> data_module_name ` set data_modules \<Longrightarrow>
   resolve_data_module conf = raise (NotImplementedError (''Unknown data module '' @ dn))"
  using find_data_None[of dn]
  by (simp add: resolve_data_module_def conf_get_def bindE_return)

lemma resolve_pl_unknown:
  "params_pl_module_name conf = Some pn \<Longrightarrow> pn \<notin> pl_module_name ` set pl_modules \<Longrightarrow>
   resolve_pl_module conf = raise (NotImplementedError (''Unknown pl module '' @ pn))"
  using find_pl_None[of pn]
  by (simp add: resolve_pl_module_def conf_get_def bindE_return)
lemma main_unknown_data:
  assumes "params_data_module_name conf = Some dn" "dn \<notin> data_module_name ` set data_modules"
  shows "main w conf tr = (Inl (NotImplementedError (''Unknown data module '' @ dn)), tr @ seeded conf)"
  by (simp add: main_def seeded_def resolve_data_unknown[OF assms] bindE_return bindE_emit
      bindE_raise raise_apply split: option.splits)

lemma main_unknown_pl:
  assumes "params_data_module_name conf = Some (data_module_name dc)"
    "params_pl_module_name conf = Some pn" "pn \<notin> pl_module_name ` set pl_modules"
  shows "main w conf tr = (Inl (NotImplementedError (''Unknown pl module '' @ pn)),
         tr @ seeded conf @ [LogInfo (data_module_name dc @ '' used'')])"
  by (simp add: main_def seeded_def resolve_data_known[OF assms(1)] resolve_pl_unknown[OF assms(2,3)]
      bindE_return bindE_emit bindE_raise raise_apply split: option.splits)

lemma main_known:
  assumes "params_data_module_name conf = Some (data_module_name dc)"
          "params_pl_module_name conf = Some (pl_module_name pc)"
  shows "main w conf tr =
     bindE (train w conf dc pc) (save_weights w conf)
       (tr @ seeded conf @
        [LogInfo (data_module_name dc @ '' used''), LogInfo (pl_module_name pc @ '' used'')])"
  by (simp add: main_def seeded_def resolve_data_known[OF assms(1)] resolve_pl_known[OF assms(2)]
      bindE_return bindE_emit split: option.splits)

lemma train_result:
  "train w conf dc pc tr =
     (case params conf of
        None \<Rightarrow> (Inl (ConfigMissingException ''params''), tr)
      | Some p \<Rightarrow>
     (case pl_module_init w pc p of
        Inl x \<Rightarrow> (Inl (DownstreamError x), tr @ [PlModuleInit pc p])
      | Inr model \<Rightarrow>
     (case data_module conf of
        None \<Rightarrow> (Inl (ConfigMissingException ''data_module''), tr @ [PlModuleInit pc p])
      | Some d \<Rightarrow>
     (case data_module_init w dc d model of
        Inl x \<Rightarrow> (Inl (DownstreamError x), tr @ [PlModuleInit pc p, DataModuleInit dc d model])
      | Inr dm \<Rightarrow>
     (case trainer conf of
        None \<Rightarrow> (Inl (ConfigMissingException ''trainer''),
                 tr @ [PlModuleInit pc p, DataModuleInit dc d model])
      | Some t \<Rightarrow>
     (case trainer_init w t of
        Inl x \<Rightarrow> (Inl (DownstreamError x),
                  tr @ [PlModuleInit pc p, DataModuleInit dc d model, TrainerInit t])
      | Inr trainer_obj \<Rightarrow>
     (case trainer_fit w trainer_obj model dm of
        Inl x \<Rightarrow> (Inl (DownstreamError x),
                  tr @ [PlModuleInit pc p, DataModuleInit dc d model, TrainerInit t,
                        TrainerFit trainer_obj model dm])
      | Inr u \<Rightarrow> (Inr trainer_obj,
                  tr @ [PlModuleInit pc p, DataModuleInit dc d model, TrainerInit t,
                        TrainerFit trainer_obj model dm]))))))))"
  by (simp add: train_def prog_simps split: option.splits sum.splits)

lemma save_weights_result:
  "save_weights w conf trainer_obj tr =
     (case model_path conf of
        None \<Rightarrow> (Inr (), tr)
      | Some path \<Rightarrow>
     (case trainer_save_checkpoint w trainer_obj path True of
        Inl x \<Rightarrow> (Inl (DownstreamError x), tr @ [SaveCheckpoint trainer_obj path True])
      | Inr u \<Rightarrow> (Inr (), tr @ [SaveCheckpoint trainer_obj path True,
                   LogInfo (''Model weights saved to '' @ [CHR 0x22] @ path @ [CHR 0x22])])))"
  by (simp add: save_weights_def prog_simps split: option.splits sum.splits)

lemma save_no_unknown: "fst (save_weights w conf t tr) \<noteq> Inl (NotImplementedError msg)"
  by (simp add: save_weights_result split: option.splits sum.splits)

lemma train_no_unknown: "fst (train w conf dc pc tr) \<noteq> Inl (NotImplementedError msg)"
  by (simp add: train_result split: option.splits sum.splits)

lemma main_no_unknown:
  assumes "params_data_module_name conf = Some (data_module_name dc)"
          "params_pl_module_name conf = Some (pl_module_name pc)"
  shows "fst (main w conf tr) \<noteq> Inl (NotImplementedError msg)"
proof (cases "train w conf dc pc (tr @ seeded conf @
        [LogInfo (data_module_name dc @ '' used''), LogInfo (pl_module_name pc @ '' used'')])")
  case (Pair r tr')
  show ?thesis
  proof (cases r)
    case (Inl e)
    have "e \<noteq> NotImplementedError msg"
      using Pair Inl train_no_unknown[of w conf dc pc _ msg] by (metis fst_conv)
    with Pair Inl show ?thesis
      by (simp add: main_known[OF assms] bindE_def)
  next
    case (Inr t)
    with Pair save_no_unknown[of w conf t tr' msg] show ?thesis
      by (simp add: main_known[OF assms] bindE_def)
  qed
qed

lemma resolve_data_result:
  "resolve_data_module conf tr =
     (case params_data_module_name conf of
        None \<Rightarrow> (Inl (ConfigMissingException ''params.data_module_name''), tr)
      | Some n \<Rightarrow>
          (case find_class data_module_name data_modules n of
             None \<Rightarrow> (Inl (NotImplementedError (''Unknown data module '' @ n)), tr)
           | Some m \<Rightarrow> (Inr m, tr)))"
  by (simp add: resolve_data_module_def prog_simps split: option.splits)

lemma resolve_pl_result:
  "resolve_pl_module conf tr =
     (case params_pl_module_name conf of
        None \<Rightarrow> (Inl (ConfigMissingException ''params.pl_module_name''), tr)
      | Some n \<Rightarrow>
          (case find_class pl_module_name pl_modules n of
             None \<Rightarrow> (Inl (NotImplementedError (''Unknown pl module '' @ n)), tr)
           | Some m \<Rightarrow> (Inr m, tr)))"
  by (simp add: resolve_pl_module_def prog_simps split: option.splits)

lemma resolve_data_iff:
  "fst (resolve_data_module conf tr) = Inr c \<longleftrightarrow>
     params_data_module_name conf = Some (data_module_name c)"
proof (cases "params_data_module_name conf")
  case None
  then show ?thesis by (simp add: resolve_data_result)
next
  case (Some n)
  show ?thesis
  proof (cases "find_class data_module_name data_modules n")
    case None
    then have "data_module_name c \<noteq> n" using find_data_iff[of n c] by simp
    with Some None show ?thesis by (auto simp: resolve_data_result)
  next
    case (Some m)
    then have "data_module_name m = n" using find_data_iff[of n m] by simp
    moreover have "m = c \<longleftrightarrow> data_module_name c = n"
      using find_data_iff[of n c] Some by auto
    ultimately show ?thesis using \<open>params_data_module_name conf = Some n\<close> Some
      by (auto simp: resolve_data_result)
  qed
qed

lemma resolve_pl_iff:
  "fst (resolve_pl_module conf tr) = Inr c \<longleftrightarrow>
     params_pl_module_name conf = Some (pl_module_name c)"
proof (cases "params_pl_module_name conf")
  case None
  then show ?thesis by (simp add: resolve_pl_result)
next
  case (Some n)
  show ?thesis
  proof (cases "find_class pl_module_name pl_modules n")
    case None
    then have "pl_module_name c \<noteq> n" using find_pl_iff[of n c] by simp
    with Some None show ?thesis by (auto simp: resolve_pl_result)
  next
    case (Some m)
    then have "pl_module_name m = n" using find_pl_iff[of n m] by simp
    moreover have "m = c \<longleftrightarrow> pl_module_name c = n"
      using find_pl_iff[of n c] Some by auto
    ultimately show ?thesis using \<open>params_pl_module_name conf = Some n\<close> Some
      by (auto simp: resolve_pl_result)
  qed
qed

lemma main_cases:
  "(\<exists>e. main w conf tr = (Inl e, tr @ seeded conf)) \<or>
   (\<exists>e dc. main w conf tr = (Inl e, tr @ seeded conf @ [LogInfo (data_module_name dc @ '' used'')])) \<or>
   (\<exists>dc pc. main w conf tr =
      bindE (train w conf dc pc) (save_weights w conf)
        (tr @ seeded conf @
         [LogInfo (data_module_name dc @ '' used''), LogInfo (pl_module_name pc @ '' used'')]))"
proof (cases "resolve_data_module conf (tr @ seeded conf)")
  case (Pair r tr1)
  have tr1: "tr1 = tr @ seeded conf"
    using Pair by (simp add: resolve_data_result split: option.splits)
  have m0: "main w conf tr =
      bindE (resolve_data_module conf) (\<lambda>data_module_cls.
      bindE (emit (LogInfo (data_module_name data_module_cls @ '' used''))) (\<lambda>_.
      bindE (resolve_pl_module conf) (\<lambda>pl_module_cls.
      bindE (emit (LogInfo (pl_module_name pl_module_cls @ '' used''))) (\<lambda>_.
      bindE (train w conf data_module_cls pl_module_cls) (\<lambda>trainer_obj.
      save_weights w conf trainer_obj))))) (tr @ seeded conf)"
    by (simp add: main_def seeded_def bindE_emit bindE_return split: option.splits)
  show ?thesis
  proof (cases r)
    case (Inl e)
    with Pair tr1 have "main w conf tr = (Inl e, tr @ seeded conf)"
      unfolding m0 by (simp add: bindE_def)
    then show ?thesis by blast
  next
    case (Inr dc)
    obtain r2 tr2 where p2: "resolve_pl_module conf (tr @ seeded conf @ [LogInfo (data_module_name dc @ '' used'')]) = (r2, tr2)"
      by (cases "resolve_pl_module conf (tr @ seeded conf @ [LogInfo (data_module_name dc @ '' used'')])")
    have tr2: "tr2 = tr @ seeded conf @ [LogInfo (data_module_name dc @ '' used'')]"
      using p2 by (simp add: resolve_pl_result split: option.splits)
    show ?thesis
    proof (cases r2)
      case (Inl e)
      with Pair tr1 Inr p2 tr2
      have "main w conf tr = (Inl e, tr @ seeded conf @ [LogInfo (data_module_name dc @ '' used'')])"
        unfolding m0 by (simp add: bindE_def emit_def)
      then show ?thesis by blast
    next
      case (Inr pc)
      with Pair tr1 \<open>r = Inr dc\<close> p2 tr2
      have "main w conf tr = bindE (train w conf dc pc) (save_weights w conf)
        (tr @ seeded conf @
         [LogInfo (data_module_name dc @ '' used''), LogInfo (pl_module_name pc @ '' used'')])"
        unfolding m0 by (simp add: bindE_def emit_def)
      then show ?thesis by blast
    qed
  qed
qed

subsection \<open>Runs of the example configuration\<close>

lemma example_run:
  "main example_world example_conf [] =
     (Inr (), [SeedEverything 42, LogInfo ''ColesDataModuleTrain used'',
        LogInfo ''CpcModule used'', PlModuleInit CpcModule 1,
        DataModuleInit ColesDataModuleTrain 2 2, TrainerInit 3, TrainerFit 6 2 4,
        SaveCheckpoint 6 ''model.p'' True,
        LogInfo (''Model weights saved to '' @ [CHR 0x22] @ ''model.p'' @ [CHR 0x22])])"
  by code_simp

lemma example_run_no_path:
  "main example_world (example_conf\<lparr>model_path := None\<rparr>) [] =
     (Inr (), [SeedEverything 42, LogInfo ''ColesDataModuleTrain used'',
        LogInfo ''CpcModule used'', PlModuleInit CpcModule 1,
        DataModuleInit ColesDataModuleTrain 2 2, TrainerInit 3, TrainerFit 6 2 4])"
  by code_simp

lemma example_run_unknown_data:
  "main example_world (example_conf\<lparr>params_data_module_name := Some ''UnknownThing''\<rparr>) [] =
     (Inl (NotImplementedError ''Unknown data module UnknownThing''), [SeedEverything 42])"
  by code_simp

lemma example_run_unknown_pl:
  "main example_world (example_conf\<lparr>params_pl_module_name := Some ''Other''\<rparr>) [] =
     (Inl (NotImplementedError ''Unknown pl module Other''),
      [SeedEverything 42, LogInfo ''ColesDataModuleTrain used''])"
  by code_simp

subsection \<open>Unknown components\<close>

text \<open>
  Claim C4. Let the configuration hold both names. When the data module name matches no
  class of the list, \<open>main\<close> raises the unknown-component error for it, and the message
  contains the name; when the data module name matches and the objective name matches no
  class, \<open>main\<close> raises the error for the objective name, and the message contains it. In
  both cases the trainer is never constructed. When both names match, \<open>main\<close> raises no
  unknown-component error.
\<close>

theorem unknown_component_error:
  assumes "params_data_module_name conf = Some dn" "params_pl_module_name conf = Some pn"
  shows "(dn \<notin> data_module_name ` set data_modules \<longrightarrow>
            fst (main w conf []) = Inl (NotImplementedError (''Unknown data module '' @ dn)) \<and>
            sublist dn (''Unknown data module '' @ dn)) \<and>
         (dn \<in> data_module_name ` set data_modules \<and> pn \<notin> pl_module_name ` set pl_modules \<longrightarrow>
            fst (main w conf []) = Inl (NotImplementedError (''Unknown pl module '' @ pn)) \<and>
            sublist pn (''Unknown pl module '' @ pn)) \<and>
         (dn \<notin> data_module_name ` set data_modules \<or> pn \<notin> pl_module_name ` set pl_modules \<longrightarrow>
            filter is_trainer_init (snd (main w conf [])) = []) \<and>
         (dn \<in> data_module_name ` set data_modules \<and> pn \<in> pl_module_name ` set pl_modules \<longrightarrow>
            (\<forall>msg. fst (main w conf []) \<noteq> Inl (NotImplementedError msg)))"
proof (intro conjI impI)
  assume u: "dn \<notin> data_module_name ` set data_modules"
  show "fst (main w conf []) = Inl (NotImplementedError (''Unknown data module '' @ dn))"
    by (simp add: main_unknown_data[OF assms(1) u])
  show "sublist dn (''Unknown data module '' @ dn)"
    by (rule sublist_append_leftI)
next
  assume k: "dn \<in> data_module_name ` set data_modules \<and> pn \<notin> pl_module_name ` set pl_modules"
  then obtain dc where dc: "dn = data_module_name dc" by auto
  show "fst (main w conf []) = Inl (NotImplementedError (''Unknown pl module '' @ pn))"
    using main_unknown_pl[of conf dc pn w "[]"] assms k dc by simp
  show "sublist pn (''Unknown pl module '' @ pn)"
    by (rule sublist_append_leftI)
next
  assume "dn \<notin> data_module_name ` set data_modules \<or> pn \<notin> pl_module_name ` set pl_modules"
  then consider (d) "dn \<notin> data_module_name ` set data_modules"
    | (p) "dn \<in> data_module_name ` set data_modules" "pn \<notin> pl_module_name ` set pl_modules"
    by blast
  then show "filter is_trainer_init (snd (main w conf [])) = []"
  proof cases
    case d
    show ?thesis
      by (simp add: main_unknown_data[OF assms(1) d] seeded_def split: option.splits)
  next
    case p
    then obtain dc where dc: "dn = data_module_name dc" by auto
    show ?thesis
      using main_unknown_pl[of conf dc pn w "[]"] assms p dc
      by (simp add: seeded_def split: option.splits)
  qed
next
  assume "dn \<in> data_module_name ` set data_modules \<and> pn \<in> pl_module_name ` set pl_modules"
  then obtain dc pc where "dn = data_module_name dc" "pn = pl_module_name pc" by auto
  then show "\<forall>msg. fst (main w conf []) \<noteq> Inl (NotImplementedError msg)"
    using main_no_unknown[of conf dc pc w "[]"] assms by simp
qed

theorem unknown_component_error_witness:
  "(''UnknownThing'' \<notin> data_module_name ` set data_modules \<and>
    fst (main example_world (example_conf\<lparr>params_data_module_name := Some ''UnknownThing''\<rparr>) [])
      = Inl (NotImplementedError (''Unknown data module '' @ ''UnknownThing'')) \<and>
    sublist ''UnknownThing'' (''Unknown data module '' @ ''UnknownThing'') \<and>
    filter is_trainer_init
      (snd (main example_world
         (example_conf\<lparr>params_data_module_name := Some ''UnknownThing''\<rparr>) [])) = []) \<and>
   (''ColesDataModuleTrain'' \<in> data_module_name ` set data_modules \<and>
    ''Other'' \<notin> pl_module_name ` set pl_modules \<and>
    fst (main example_world (example_conf\<lparr>params_pl_module_name := Some ''Other''\<rparr>) [])
      = Inl (NotImplementedError (''Unknown pl module '' @ ''Other'')) \<and>
    filter is_trainer_init
      (snd (main example_world (example_conf\<lparr>params_pl_module_name := Some ''Other''\<rparr>) [])) = []) \<and>
   (''ColesDataModuleTrain'' \<in> data_module_name ` set data_modules \<and>
    ''CpcModule'' \<in> pl_module_name ` set pl_modules \<and>
    (\<forall>msg. fst (main example_world example_conf []) \<noteq> Inl (NotImplementedError msg)))"
proof -
  let ?c1 = "example_conf\<lparr>params_data_module_name := Some ''UnknownThing''\<rparr>"
  let ?c2 = "example_conf\<lparr>params_pl_module_name := Some ''Other''\<rparr>"
  have u1: "''UnknownThing'' \<notin> data_module_name ` set data_modules"
    by (simp add: data_modules_def)
  have k1: "''ColesDataModuleTrain'' \<in> data_module_name ` set data_modules"
    by (simp add: data_modules_def)
  have u2: "''Other'' \<notin> pl_module_name ` set pl_modules"
    by (simp add: pl_modules_def)
  have k2: "''CpcModule'' \<in> pl_module_name ` set pl_modules"
    by (simp add: pl_modules_def)
  have d1: "params_data_module_name ?c1 = Some ''UnknownThing''"
    and p1: "params_pl_module_name ?c1 = Some ''CpcModule''"
    and d2: "params_data_module_name ?c2 = Some ''ColesDataModuleTrain''"
    and p2: "params_pl_module_name ?c2 = Some ''Other''"
    and d3: "params_data_module_name example_conf = Some ''ColesDataModuleTrain''"
    and p3: "params_pl_module_name example_conf = Some ''CpcModule''"
    by (simp_all add: example_conf_def)
  note a = unknown_component_error[OF d1 p1, of example_world]
  note b = unknown_component_error[OF d2 p2, of example_world]
  note c = unknown_component_error[OF d3 p3, of example_world]
  from a u1 have A: "fst (main example_world ?c1 [])
      = Inl (NotImplementedError (''Unknown data module '' @ ''UnknownThing''))"
    "sublist ''UnknownThing'' (''Unknown data module '' @ ''UnknownThing'')"
    "filter is_trainer_init (snd (main example_world ?c1 [])) = []"
    by blast+
  from b k1 u2 have B: "fst (main example_world ?c2 [])
      = Inl (NotImplementedError (''Unknown pl module '' @ ''Other''))"
    "filter is_trainer_init (snd (main example_world ?c2 [])) = []"
    by blast+
  from c k1 k2 have C: "\<forall>msg. fst (main example_world example_conf []) \<noteq> Inl (NotImplementedError msg)"
    by blast
  from A B C u1 k1 u2 k2 show ?thesis by blast
qed

text \<open>
  Claim C5. Each of the two data-component names and each of the two objective names
  resolves to its own class, and a lookup returns a class exactly when the configured name
  equals the name of that class.
\<close>

theorem resolves_known_names:
  "fst (resolve_data_module (conf\<lparr>params_data_module_name := Some ''ColesDataModuleTrain''\<rparr>) tr)
     = Inr ColesDataModuleTrain \<and>
   fst (resolve_data_module (conf\<lparr>params_data_module_name := Some ''CpcDataModuleTrain''\<rparr>) tr)
     = Inr CpcDataModuleTrain \<and>
   fst (resolve_pl_module (conf\<lparr>params_pl_module_name := Some ''CoLESModule''\<rparr>) tr)
     = Inr CoLESModule \<and>
   fst (resolve_pl_module (conf\<lparr>params_pl_module_name := Some ''CpcModule''\<rparr>) tr)
     = Inr CpcModule \<and>
   (\<forall>c. fst (resolve_data_module conf tr) = Inr c \<longleftrightarrow>
      params_data_module_name conf = Some (data_module_name c)) \<and>
   (\<forall>c. fst (resolve_pl_module conf tr) = Inr c \<longleftrightarrow>
      params_pl_module_name conf = Some (pl_module_name c))"
  by (simp only: resolve_data_iff resolve_pl_iff) simp

subsection \<open>The order of construction\<close>

text \<open>
  Claim C6. For a configuration that resolves both names and has the three blocks, the
  calls to the components are, in this order: the objective is constructed from the
  \<open>params\<close> block; the data component is constructed from the \<open>data_module\<close> block and the
  objective just constructed; the trainer is constructed from the \<open>trainer\<close> block; the
  trainer is run on the objective and the data component. A call that raises ends the
  sequence there.
\<close>

theorem construction_order:
  assumes "params_data_module_name conf = Some (data_module_name dc)"
      "params_pl_module_name conf = Some (pl_module_name pc)"
      "params conf = Some p" "data_module conf = Some d" "trainer conf = Some t"
  shows "case pl_module_init w pc p of
           Inl x \<Rightarrow> filter is_component_call (snd (main w conf [])) = [PlModuleInit pc p]
         | Inr model \<Rightarrow>
         (case data_module_init w dc d model of
           Inl x \<Rightarrow> filter is_component_call (snd (main w conf [])) =
                      [PlModuleInit pc p, DataModuleInit dc d model]
         | Inr dm \<Rightarrow>
         (case trainer_init w t of
           Inl x \<Rightarrow> filter is_component_call (snd (main w conf [])) =
                      [PlModuleInit pc p, DataModuleInit dc d model, TrainerInit t]
         | Inr trainer_obj \<Rightarrow>
             take 4 (filter is_component_call (snd (main w conf []))) =
               [PlModuleInit pc p, DataModuleInit dc d model, TrainerInit t,
                TrainerFit trainer_obj model dm]))"
  using assms(3-5)
  by (simp add: main_known[OF assms(1,2)] bindE_def train_result save_weights_result seeded_def
      split: option.splits sum.splits)

theorem construction_order_witness:
  "take 4 (filter is_component_call (snd (main example_world example_conf []))) =
     [PlModuleInit CpcModule 1, DataModuleInit ColesDataModuleTrain 2 2, TrainerInit 3,
      TrainerFit 6 2 4]"
proof -
  have h: "params_data_module_name example_conf = Some (data_module_name ColesDataModuleTrain)"
    "params_pl_module_name example_conf = Some (pl_module_name CpcModule)"
    "params example_conf = Some 1" "data_module example_conf = Some 2"
    "trainer example_conf = Some 3"
    by (simp_all add: example_conf_def)
  from construction_order[OF h, of example_world] show ?thesis
    by (simp add: example_world_def)
qed

subsection \<open>Saving the weights\<close>

lemma TrainerFit_in_train:
  assumes "TrainerFit trainer_obj model dm \<in> set (snd (train w conf dc pc tr))"
    "\<forall>e \<in> set tr. \<not> is_component_call e"
    "trainer_fit w trainer_obj model dm = Inr ()"
  shows "\<exists>p d t. train w conf dc pc tr =
     (Inr trainer_obj, tr @ [PlModuleInit pc p, DataModuleInit dc d model, TrainerInit t,
                        TrainerFit trainer_obj model dm])"
  using assms
  by (auto simp: train_result split: option.splits sum.splits)

lemma seeded_no_call: "\<forall>e \<in> set (seeded conf). \<not> is_component_call e"
  by (auto simp: seeded_def split: option.splits)

lemma TrainerFit_not_seeded: "TrainerFit a b c \<notin> set (seeded conf)"
  by (auto simp: seeded_def split: option.splits)

lemma save_weights_trace:
  "\<exists>post. snd (save_weights w conf t tr) = tr @ post \<and>
     TrainerFit a b c \<notin> set post \<and>
     filter is_save post =
       (case model_path conf of None \<Rightarrow> [] | Some path \<Rightarrow> [SaveCheckpoint t path True])"
  by (simp add: save_weights_result split: option.splits sum.splits)

text \<open>
  Claim C7. When the trainer has been run and the run has completed, no checkpoint is
  saved before the run, and after it the weights-only save of that trainer to the
  configured path is the one save when the configuration has a \<open>model_path\<close>, and there is
  no save when it has none.
\<close>

theorem save_iff_model_path:
  assumes "TrainerFit trainer_obj model dm \<in> set (snd (main w conf []))"
      "trainer_fit w trainer_obj model dm = Inr ()"
  shows "\<exists>pre post. snd (main w conf []) = pre @ TrainerFit trainer_obj model dm # post \<and>
           filter is_save pre = [] \<and>
           filter is_save post =
             (case model_path conf of
                None \<Rightarrow> []
              | Some path \<Rightarrow> [SaveCheckpoint trainer_obj path True])"
proof -
  from main_cases[of w conf "[]"]
  consider (a) e where "main w conf [] = (Inl e, [] @ seeded conf)"
    | (b) e dc where "main w conf [] =
         (Inl e, [] @ seeded conf @ [LogInfo (data_module_name dc @ '' used'')])"
    | (c) dc pc where "main w conf [] =
        bindE (train w conf dc pc) (save_weights w conf)
          ([] @ seeded conf @
           [LogInfo (data_module_name dc @ '' used''), LogInfo (pl_module_name pc @ '' used'')])"
    by blast
  then show ?thesis
  proof cases
    case a
    with assms(1) TrainerFit_not_seeded[of trainer_obj model dm conf] show ?thesis by simp
  next
    case b
    with assms(1) TrainerFit_not_seeded[of trainer_obj model dm conf] show ?thesis by simp
  next
    case c
    define tr0 :: "('a, 'b, 'c, 'd) event list" where
      "tr0 = seeded conf @
           [LogInfo (data_module_name dc @ '' used''), LogInfo (pl_module_name pc @ '' used'')]"
    have nc: "\<forall>e \<in> set tr0. \<not> is_component_call e"
      using seeded_no_call[of conf] by (auto simp: tr0_def)
    have ns: "filter is_save tr0 = []"
      by (auto simp: tr0_def seeded_def split: option.splits)
    have m: "main w conf [] = bindE (train w conf dc pc) (save_weights w conf) tr0"
      using c by (simp add: tr0_def)
    obtain r tr1 where tr: "train w conf dc pc tr0 = (r, tr1)"
      by (cases "train w conf dc pc tr0")
    have sub: "\<exists>post. snd (main w conf []) = tr1 @ post \<and>
        TrainerFit trainer_obj model dm \<notin> set post \<and>
        (\<forall>t. r = Inr t \<longrightarrow> filter is_save post =
          (case model_path conf of None \<Rightarrow> [] | Some path \<Rightarrow> [SaveCheckpoint t path True]))"
    proof (cases r)
      case (Inl e)
      with tr m show ?thesis by (simp add: bindE_def)
    next
      case (Inr t)
      with tr m save_weights_trace[of w conf t tr1 trainer_obj model dm] show ?thesis
        by (simp add: bindE_def)
    qed
    then obtain post where post: "snd (main w conf []) = tr1 @ post"
      "TrainerFit trainer_obj model dm \<notin> set post"
      "\<forall>t. r = Inr t \<longrightarrow> filter is_save post =
          (case model_path conf of None \<Rightarrow> [] | Some path \<Rightarrow> [SaveCheckpoint t path True])"
      by blast
    from assms(1) post(1,2) have "TrainerFit trainer_obj model dm \<in> set (snd (train w conf dc pc tr0))"
      by (simp add: tr)
    from TrainerFit_in_train[OF this nc assms(2)] tr
    obtain p d t where r: "r = Inr trainer_obj"
      and tr1: "tr1 = tr0 @ [PlModuleInit pc p, DataModuleInit dc d model, TrainerInit t,
                        TrainerFit trainer_obj model dm]"
      by auto
    have "snd (main w conf []) =
        (tr0 @ [PlModuleInit pc p, DataModuleInit dc d model, TrainerInit t]) @
        TrainerFit trainer_obj model dm # post"
      by (simp add: post(1) tr1)
    moreover have "filter is_save (tr0 @ [PlModuleInit pc p, DataModuleInit dc d model, TrainerInit t]) = []"
      by (simp add: ns)
    moreover have "filter is_save post =
          (case model_path conf of None \<Rightarrow> [] | Some path \<Rightarrow> [SaveCheckpoint trainer_obj path True])"
      using post(3) r by simp
    ultimately show ?thesis by blast
  qed
qed

theorem save_iff_model_path_witness:
  "(TrainerFit 6 2 4 \<in> set (snd (main example_world example_conf [])) \<and>
    trainer_fit example_world 6 2 4 = Inr () \<and>
    (\<exists>pre post. snd (main example_world example_conf []) = pre @ TrainerFit 6 2 4 # post \<and>
       filter is_save pre = [] \<and> filter is_save post = [SaveCheckpoint 6 ''model.p'' True])) \<and>
   (TrainerFit 6 2 4 \<in> set (snd (main example_world (example_conf\<lparr>model_path := None\<rparr>) [])) \<and>
    (\<exists>pre post. snd (main example_world (example_conf\<lparr>model_path := None\<rparr>) []) =
         pre @ TrainerFit 6 2 4 # post \<and>
       filter is_save pre = [] \<and> filter is_save post = []))"
proof -
  have f: "trainer_fit example_world 6 2 4 = Inr ()"
    by (simp add: example_world_def)
  have i1: "TrainerFit 6 2 4 \<in> set (snd (main example_world example_conf []))"
    by (simp add: example_run)
  have i2: "TrainerFit 6 2 4 \<in> set (snd (main example_world (example_conf\<lparr>model_path := None\<rparr>) []))"
    by (simp add: example_run_no_path)
  have m1: "model_path example_conf = Some ''model.p''"
    and m2: "model_path (example_conf\<lparr>model_path := None\<rparr>) = None"
    by (simp_all add: example_conf_def)
  from save_iff_model_path[OF i1 f] m1
  have A: "\<exists>pre post. snd (main example_world example_conf []) = pre @ TrainerFit 6 2 4 # post \<and>
       filter is_save pre = [] \<and> filter is_save post = [SaveCheckpoint 6 ''model.p'' True]"
    by simp
  from save_iff_model_path[OF i2 f] m2
  have B: "\<exists>pre post. snd (main example_world (example_conf\<lparr>model_path := None\<rparr>) []) =
         pre @ TrainerFit 6 2 4 # post \<and>
       filter is_save pre = [] \<and> filter is_save post = []"
    by simp
  from A B f i1 i2 show ?thesis by blast
qed

section \<open>Properties of the GPT datasets\<close>

subsection \<open>The C3 merge\<close>

declare c3_merge.simps [simp del]

lemma c3_merge_Nil: "filter (\<lambda>s. s \<noteq> []) seqs = [] \<Longrightarrow> c3_merge seqs = Some []"
  by (subst c3_merge.simps) simp

lemma c3_merge_step:
  assumes "filter (\<lambda>s. s \<noteq> []) seqs = seqs'" "seqs' \<noteq> []"
  shows "c3_merge seqs =
     (case find (good_head seqs') (map hd seqs') of
        None \<Rightarrow> None
      | Some h \<Rightarrow> map_option ((#) h) (c3_merge (map (drop_head h) seqs')))"
  using assms by (subst c3_merge.simps) (simp add: Let_def)

lemma c3_merge_filter: "c3_merge (filter (\<lambda>s. s \<noteq> []) seqs) = c3_merge seqs"
  by (subst (1 2) c3_merge.simps) simp

lemma c3_merge_Some_cases:
  assumes "c3_merge seqs = Some r"
  obtains (empty) "filter (\<lambda>s. s \<noteq> []) seqs = []" "r = []"
  | (step) h r' where "filter (\<lambda>s. s \<noteq> []) seqs \<noteq> []"
      "find (good_head (filter (\<lambda>s. s \<noteq> []) seqs)) (map hd (filter (\<lambda>s. s \<noteq> []) seqs)) = Some h"
      "c3_merge (map (drop_head h) (filter (\<lambda>s. s \<noteq> []) seqs)) = Some r'" "r = h # r'"
proof (cases "filter (\<lambda>s. s \<noteq> []) seqs = []")
  case True
  with assms empty show ?thesis by (simp add: c3_merge_Nil)
next
  case False
  from assms c3_merge_step[OF refl False, of ] show ?thesis
    using False step by (auto split: option.splits)
qed

lemma find_good_head:
  assumes "find (good_head seqs') (map hd seqs') = Some h" "\<forall>s \<in> set seqs'. s \<noteq> []"
  shows "\<exists>s \<in> set seqs'. hd s = h \<and> h \<in> set s" "\<forall>s \<in> set seqs'. h \<notin> set (tl s)"
proof -
  from assms(1) have "h \<in> set (map hd seqs')" "good_head seqs' h"
    by (auto simp: find_Some_iff)
  then show "\<exists>s \<in> set seqs'. hd s = h \<and> h \<in> set s" "\<forall>s \<in> set seqs'. h \<notin> set (tl s)"
    using assms(2) by (auto simp: good_head_def list_all_iff)
qed

lemma not_in_drop_head:
  assumes "h \<notin> set (tl s)" "s \<noteq> []"
  shows "h \<notin> set (drop_head h s)"
  using assms by (cases s) (auto simp: drop_head_def)

lemma set_drop_head: "s \<noteq> [] \<Longrightarrow> set s \<subseteq> insert h (set (drop_head h s))"
  by (cases s) (auto simp: drop_head_def)

lemma set_drop_head_subset: "set (drop_head h s) \<subseteq> set s"
  by (cases s) (auto simp: drop_head_def)

lemma set_c3_merge: "c3_merge seqs = Some r \<Longrightarrow> set r = \<Union> (set ` set seqs)"
proof (induction seqs arbitrary: r rule: c3_merge.induct)
  case (1 seqs)
  let ?seqs' = "filter (\<lambda>s. s \<noteq> []) seqs"
  have u: "\<Union> (set ` set seqs) = \<Union> (set ` set ?seqs')" by auto
  from "1.prems" show ?case
  proof (cases rule: c3_merge_Some_cases)
    case empty
    then show ?thesis unfolding u by simp
  next
    case (step h r')
    have ne: "\<forall>s \<in> set ?seqs'. s \<noteq> []" by simp
    from "1.IH"[OF refl step(1) step(2) step(3)]
    have r': "set r' = \<Union> (set ` set (map (drop_head h) ?seqs'))" .
    from find_good_head[OF step(2) ne] obtain s0 where s0: "s0 \<in> set ?seqs'" "h \<in> set s0"
      by blast
    have "set r = insert h (set r')" using step(4) by simp
    also have "\<dots> = \<Union> (set ` set ?seqs')"
    proof
      show "insert h (set r') \<subseteq> \<Union> (set ` set ?seqs')"
        using s0 set_drop_head_subset[of h] unfolding r' by fastforce
      show "\<Union> (set ` set ?seqs') \<subseteq> insert h (set r')"
        using set_drop_head[of _ h] ne unfolding r' by fastforce
    qed
    finally show ?thesis unfolding u .
  qed
qed

lemma distinct_c3_merge: "c3_merge seqs = Some r \<Longrightarrow> distinct r"
proof (induction seqs arbitrary: r rule: c3_merge.induct)
  case (1 seqs)
  let ?seqs' = "filter (\<lambda>s. s \<noteq> []) seqs"
  from "1.prems" show ?case
  proof (cases rule: c3_merge_Some_cases)
    case empty
    then show ?thesis by simp
  next
    case (step h r')
    have ne: "\<forall>s \<in> set ?seqs'. s \<noteq> []" by simp
    from "1.IH"[OF refl step(1) step(2) step(3)] have d: "distinct r'" .
    have "set r' = \<Union> (set ` set (map (drop_head h) ?seqs'))"
      using step(3) by (rule set_c3_merge)
    moreover have "h \<notin> set (drop_head h s)" if "s \<in> set ?seqs'" for s
    proof -
      from that have "s \<noteq> []" by simp
      moreover from find_good_head(2)[OF step(2) ne] that have "h \<notin> set (tl s)" by (rule bspec)
      ultimately show ?thesis by (rule not_in_drop_head[rotated])
    qed
    ultimately have "h \<notin> set r'" by simp
    with d step(4) show ?thesis by simp
  qed
qed

lemma c3_merge_single: "distinct l \<Longrightarrow> c3_merge [l] = Some l"
proof (induction l)
  case Nil
  show ?case by (simp add: c3_merge_Nil)
next
  case (Cons x xs)
  have "c3_merge [x # xs] = map_option ((#) x) (c3_merge [xs])"
    using Cons.prems
    by (subst c3_merge_step[of "[x # xs]" "[x # xs]"]) (simp_all add: good_head_def drop_head_def)
  with Cons show ?case by simp
qed

lemma c3_merge_single_base:
  assumes "distinct (M # l)"
  shows "c3_merge [M # l, [M]] = Some (M # l)"
proof -
  have "c3_merge [M # l, [M]] = map_option ((#) M) (c3_merge [l, []])"
    using assms
    by (subst c3_merge_step[of "[M # l, [M]]" "[M # l, [M]]"])
       (simp_all add: good_head_def drop_head_def)
  also have "c3_merge [l, []] = c3_merge [l]"
  proof -
    have "filter (\<lambda>s. s \<noteq> []) [l, []] = filter (\<lambda>s. s \<noteq> []) [l]" by simp
    then show ?thesis
      using c3_merge_filter[of "[l, []]"] c3_merge_filter[of "[l]"] by (simp only:)
  qed
  also have "\<dots> = Some l" using assms by (simp add: c3_merge_single)
  finally show ?thesis by simp
qed

lemma those_map_mem:
  "those (map f xs) = Some ys \<Longrightarrow> y \<in> set ys \<Longrightarrow> \<exists>x \<in> set xs. f x = Some y"
  by (induction xs arbitrary: ys) (auto split: option.splits)

lemma mro_head: "mro C = Some l \<Longrightarrow> \<exists>r. l = C # r"
  by (cases C) (auto split: option.splits)

lemma size_base: "c \<in> set bs \<Longrightarrow> size c < size (PyClass n bs b)"
  by (induction bs) auto

lemma mro_size: "mro C = Some l \<Longrightarrow> c \<in> set l \<Longrightarrow> size c \<le> size C"
proof (induction C arbitrary: l c rule: mro.induct)
  case (1 n bs b)
  from "1.prems"(1) obtain ls r where ls: "those (map mro bs) = Some ls"
    and r: "c3_merge (ls @ [bs]) = Some r" and l: "l = PyClass n bs b # r"
    by (auto split: option.splits)
  show ?case
  proof (cases "c = PyClass n bs b")
    case True
    then show ?thesis by simp
  next
    case False
    with "1.prems"(2) l have "c \<in> set r" by simp
    then have "c \<in> \<Union> (set ` set (ls @ [bs]))" using set_c3_merge[OF r] by simp
    then consider (base) "c \<in> set bs" | (anc) lb where "lb \<in> set ls" "c \<in> set lb"
      by auto
    then show ?thesis
    proof cases
      case base
      then show ?thesis using size_base[of c bs n b] by simp
    next
      case anc
      from those_map_mem[OF ls anc(1)] obtain b0 where b0: "b0 \<in> set bs" "mro b0 = Some lb"
        by blast
      from "1.IH"[OF b0(1) b0(2) anc(2)] have "size c \<le> size b0" .
      with size_base[OF b0(1), of n b] show ?thesis by simp
    qed
  qed
qed

lemma distinct_mro: "mro C = Some l \<Longrightarrow> distinct l"
proof (cases C)
  case (PyClass n bs b)
  assume m: "mro C = Some l"
  with PyClass obtain ls r where ls: "those (map mro bs) = Some ls"
    and r: "c3_merge (ls @ [bs]) = Some r" and l: "l = C # r"
    by (auto split: option.splits)
  have "C \<notin> set r"
  proof
    assume "C \<in> set r"
    then have "C \<in> \<Union> (set ` set (ls @ [bs]))" using set_c3_merge[OF r] by simp
    then consider (base) "C \<in> set bs" | (anc) lb where "lb \<in> set ls" "C \<in> set lb"
      by auto
    then show False
    proof cases
      case base
      then show False using size_base[of C bs n b] PyClass by simp
    next
      case anc
      from those_map_mem[OF ls anc(1)] obtain b0 where b0: "b0 \<in> set bs" "mro b0 = Some lb"
        by blast
      from mro_size[OF b0(2) anc(2)] size_base[OF b0(1), of n b] PyClass show False by simp
    qed
  qed
  with distinct_c3_merge[OF r] l show ?thesis by simp
qed

lemma lookup_mro_Some:
  "lookup_mro a l = Some v \<Longrightarrow> \<exists>c \<in> set l. map_of (body c) a = Some v"
  by (induction l) (auto split: option.splits)

lemma filter_c3_merge:
  "c3_merge seqs = Some r \<Longrightarrow> s \<in> set seqs \<Longrightarrow> distinct s \<Longrightarrow>
   filter (\<lambda>x. x \<in> set s) r = s"
proof (induction seqs arbitrary: r s rule: c3_merge.induct)
  case (1 seqs)
  let ?seqs' = "filter (\<lambda>s. s \<noteq> []) seqs"
  show ?case
  proof (cases "s = []")
    case True
    then show ?thesis by simp
  next
    case False
    with "1.prems"(2) have s': "s \<in> set ?seqs'" by simp
    from "1.prems"(1) show ?thesis
    proof (cases rule: c3_merge_Some_cases)
      case empty
      with s' show ?thesis by simp
    next
      case (step h r')
      have ne: "\<forall>s \<in> set ?seqs'. s \<noteq> []" by simp
      have hr: "h \<notin> set r'"
        using distinct_c3_merge[OF "1.prems"(1)] step(4) by simp
      have ht: "h \<notin> set (tl s)"
        using find_good_head(2)[OF step(2) ne] s' by (rule bspec)
      have ds: "distinct (drop_head h s)"
        using "1.prems"(3) by (cases s) (auto simp: drop_head_def)
      have "drop_head h s \<in> set (map (drop_head h) ?seqs')" 
        using s' by (simp only: set_map) (rule imageI)
      from "1.IH"[OF refl step(1) step(2) step(3) this ds]
      have ih: "filter (\<lambda>x. x \<in> set (drop_head h s)) r' = drop_head h s" .
      obtain x xs where sx: "s = x # xs" using False by (cases s) auto
      show ?thesis
      proof (cases "x = h")
        case True
        have "filter (\<lambda>y. y \<in> set s) r' = filter (\<lambda>y. y \<in> set xs) r'"
          using hr sx True by (intro filter_cong) auto
        with ih sx True step(4) show ?thesis by (simp add: drop_head_def)
      next
        case neq: False
        with ht sx have "h \<notin> set s" by auto
        with ih sx neq step(4) show ?thesis by (simp add: drop_head_def)
      qed
    qed
  qed
qed

lemma lookup_mro_filter:
  "\<forall>c \<in> set l. \<not> P c \<longrightarrow> map_of (body c) a = None \<Longrightarrow>
   lookup_mro a (filter P l) = lookup_mro a l"
  by (induction l) (auto split: option.splits)

lemma mro_GptDataset:
  assumes "mro M = Some lM"
  shows "mro (GptDataset M) = Some (GptDataset M # lM)"
proof -
  from mro_head[OF assms] obtain r where r: "lM = M # r" by blast
  from distinct_mro[OF assms] r have "c3_merge [M # r, [M]] = Some (M # r)"
    by (simp only: c3_merge_single_base)
  with assms r show ?thesis by (simp add: GptDataset_def)
qed

lemma getattr_GptDataset:
  assumes "mro M = Some lM"
  shows "class_getattr (GptDataset M) a = class_getattr M a"
proof -
  have "body (GptDataset M) = []" by (simp add: GptDataset_def)
  then show ?thesis
    by (simp add: class_getattr_def mro_GptDataset[OF assms] assms)
qed

lemma mro_GptIterableDataset:
  assumes "mro M = Some lM" "mro I = Some lI" "mro (GptIterableDataset M I) = Some l"
  shows "\<exists>r. l = GptIterableDataset M I # r \<and>
           c3_merge [GptDataset M # lM, lI, [GptDataset M, I]] = Some r"
  using assms(2,3) mro_GptDataset[OF assms(1)]
  by (auto simp: GptIterableDataset_def split: option.splits)

text \<open>
  Claim C9. \<^verbatim>\<open>GptDataset\<close> defines nothing of its own: its body is empty, its resolution
  order is itself followed by the order of \<^verbatim>\<open>MlmDataset\<close>, and every attribute resolves as
  it does on \<^verbatim>\<open>MlmDataset\<close>. \<^verbatim>\<open>GptIterableDataset\<close> defines nothing of its own either: its
  resolution order holds itself and the classes of the orders of \<^verbatim>\<open>GptDataset\<close> and
  \<^verbatim>\<open>IterableDataset\<close> and no other, every attribute it has is defined by one of these
  classes, and an attribute that no class brought in by \<^verbatim>\<open>IterableDataset\<close> defines
  resolves as it does on \<^verbatim>\<open>GptDataset\<close>.
\<close>

theorem gpt_datasets_add_no_behaviour:
  assumes "mro MlmDataset = Some lM"
  shows "body (GptDataset MlmDataset) = [] \<and>
         mro (GptDataset MlmDataset) = Some (GptDataset MlmDataset # lM) \<and>
         (\<forall>a. class_getattr (GptDataset MlmDataset) a = class_getattr MlmDataset a) \<and>
         body (GptIterableDataset MlmDataset IterableDataset) = [] \<and>
         (\<forall>lI l. mro IterableDataset = Some lI \<and>
                 mro (GptIterableDataset MlmDataset IterableDataset) = Some l \<longrightarrow>
            set l = insert (GptIterableDataset MlmDataset IterableDataset)
                      (set (GptDataset MlmDataset # lM) \<union> set lI) \<and>
            (\<forall>a v. class_getattr (GptIterableDataset MlmDataset IterableDataset) a = Some v \<longrightarrow>
               (\<exists>c \<in> set (GptDataset MlmDataset # lM) \<union> set lI. map_of (body c) a = Some v)) \<and>
            (\<forall>a. (\<forall>c \<in> set lI - set (GptDataset MlmDataset # lM). map_of (body c) a = None) \<longrightarrow>
               class_getattr (GptIterableDataset MlmDataset IterableDataset) a =
               class_getattr (GptDataset MlmDataset) a))"
proof (intro conjI allI impI)
  show "body (GptDataset MlmDataset) = []" by (simp add: GptDataset_def)
  show "mro (GptDataset MlmDataset) = Some (GptDataset MlmDataset # lM)"
    using assms by (rule mro_GptDataset)
  show "class_getattr (GptDataset MlmDataset) a = class_getattr MlmDataset a" for a
    using assms by (rule getattr_GptDataset)
  show "body (GptIterableDataset MlmDataset IterableDataset) = []"
    by (simp add: GptIterableDataset_def)
next
  fix lI l
  assume h: "mro IterableDataset = Some lI \<and>
     mro (GptIterableDataset MlmDataset IterableDataset) = Some l"
  let ?G = "GptDataset MlmDataset" and ?GI = "GptIterableDataset MlmDataset IterableDataset"
  from mro_GptIterableDataset[OF assms, of IterableDataset lI l] h
  obtain r where l: "l = ?GI # r" and r: "c3_merge [?G # lM, lI, [?G, IterableDataset]] = Some r"
    by blast
  from h mro_head[of IterableDataset lI] have iI: "IterableDataset \<in> set lI" by auto
  have sr: "set r = set (?G # lM) \<union> set lI"
    using set_c3_merge[OF r] iI by auto
  show "set l = insert ?GI (set (?G # lM) \<union> set lI)"
    using l sr by simp
  have bGI: "body ?GI = []" by (simp add: GptIterableDataset_def)
  have gGI: "class_getattr ?GI a = lookup_mro a r" for a
    using h l bGI by (simp add: class_getattr_def)
  {
    fix a v
    assume "class_getattr ?GI a = Some v"
    then have "lookup_mro a r = Some v" by (simp add: gGI)
    from lookup_mro_Some[OF this] sr
    show "\<exists>c \<in> set (?G # lM) \<union> set lI. map_of (body c) a = Some v" by simp
  }
  {
    fix a
    assume n: "\<forall>c \<in> set lI - set (?G # lM). map_of (body c) a = None"
    have d: "distinct (?G # lM)"
      using distinct_mro[OF mro_GptDataset[OF assms]] .
    have f: "filter (\<lambda>x. x \<in> set (?G # lM)) r = ?G # lM"
      using r _ d by (rule filter_c3_merge) simp
    have "\<forall>c \<in> set r. \<not> c \<in> set (?G # lM) \<longrightarrow> map_of (body c) a = None"
      using n sr by auto
    from lookup_mro_filter[of r "\<lambda>x. x \<in> set (?G # lM)" a, OF this] f
    have "lookup_mro a r = lookup_mro a (?G # lM)" by simp
    moreover have "class_getattr ?G a = lookup_mro a (?G # lM)"
      by (simp add: class_getattr_def mro_GptDataset[OF assms])
    ultimately show "class_getattr ?GI a = class_getattr ?G a"
      by (simp only: gGI)
  }
qed

lemma example_mros:
  "mro example_MlmDataset = Some [example_MlmDataset, example_Dataset]"
  "mro example_IterableDataset = Some [example_IterableDataset, example_Dataset]"
  "mro (GptIterableDataset example_MlmDataset example_IterableDataset) =
     Some [GptIterableDataset example_MlmDataset example_IterableDataset, GptDataset example_MlmDataset,
           example_MlmDataset, example_IterableDataset, example_Dataset]"
  by code_simp+

theorem gpt_datasets_add_no_behaviour_witness:
  "mro example_MlmDataset = Some [example_MlmDataset, example_Dataset] \<and>
   mro example_IterableDataset = Some [example_IterableDataset, example_Dataset] \<and>
   mro (GptDataset example_MlmDataset) = Some [GptDataset example_MlmDataset, example_MlmDataset, example_Dataset] \<and>
   class_getattr (GptDataset example_MlmDataset) ''__getitem__'' =
     class_getattr example_MlmDataset ''__getitem__'' \<and>
   class_getattr (GptIterableDataset example_MlmDataset example_IterableDataset) ''__len__'' =
     class_getattr (GptDataset example_MlmDataset) ''__len__'' \<and>
   (\<exists>c \<in> set [GptDataset example_MlmDataset, example_MlmDataset, example_Dataset] \<union>
           set [example_IterableDataset, example_Dataset].
      map_of (body c) ''__iter__'' =
        class_getattr (GptIterableDataset example_MlmDataset example_IterableDataset) ''__iter__'')"
proof -
  let ?GI = "GptIterableDataset example_MlmDataset example_IterableDataset"
  let ?lI = "[example_IterableDataset, example_Dataset]"
  note t = gpt_datasets_add_no_behaviour[OF example_mros(1), of example_IterableDataset]
  from t have g: "mro (GptDataset example_MlmDataset) =
      Some [GptDataset example_MlmDataset, example_MlmDataset, example_Dataset]"
    and a: "class_getattr (GptDataset example_MlmDataset) ''__getitem__'' =
      class_getattr example_MlmDataset ''__getitem__''"
    by blast+
  from t example_mros(2,3)
  have p: "\<forall>a v. class_getattr ?GI a = Some v \<longrightarrow>
       (\<exists>c \<in> set (GptDataset example_MlmDataset # [example_MlmDataset, example_Dataset]) \<union> set ?lI.
          map_of (body c) a = Some v)"
    and q: "\<forall>a. (\<forall>c \<in> set ?lI - set (GptDataset example_MlmDataset # [example_MlmDataset, example_Dataset]).
          map_of (body c) a = None) \<longrightarrow>
       class_getattr ?GI a = class_getattr (GptDataset example_MlmDataset) a"
    by blast+
  have "\<forall>c \<in> set ?lI - set (GptDataset example_MlmDataset # [example_MlmDataset, example_Dataset]).
      map_of (body c) ''__len__'' = None"
    by (auto simp: example_IterableDataset_def)
  with q have l: "class_getattr ?GI ''__len__'' = class_getattr (GptDataset example_MlmDataset) ''__len__''"
    by blast
  have "class_getattr ?GI ''__iter__'' = Some 3"
    by code_simp
  with p have i: "\<exists>c \<in> set [GptDataset example_MlmDataset, example_MlmDataset, example_Dataset] \<union> set ?lI.
      map_of (body c) ''__iter__'' = class_getattr ?GI ''__iter__''"
    by simp
  from example_mros(1,2) g a l i show ?thesis by blast
qed

end
